theory Spec2Isabelle
  imports Complex_Main "HOL-Library.AList" "HOL-Library.Multiset"
begin

section \<open>Data model (models.py, schemas.py)\<close>

text \<open>
  The tables of models.py are lists of rows; a query
  \<^verbatim>\<open>db.query(T).filter(T.id == k).first()\<close> is \<open>find\<close> on the table and yields
  \<open>None\<close> where Python gets \<open>None\<close>. Ids are Python integers (\<open>int\<close>). Amounts
  (\<^verbatim>\<open>Column(Float)\<close>, \<^verbatim>\<open>Dict[int, float]\<close>) are the real values of finite
  binary64 numbers. Python dictionaries are association lists, read in the order of
  \<^verbatim>\<open>.items()\<close> and maintained with \<open>AList.update\<close>, which overwrites a key in
  place and appends a new key at the end, as a Python \<^verbatim>\<open>dict\<close> does.

  The keys of the contribution map \<^verbatim>\<open>user_sums\<close> have two types. In a request
  (schemas.DataCreate, \<^verbatim>\<open>Dict[int, float]\<close>) they are integers. The column
  \<^verbatim>\<open>user_sums\<close> of models.Data is \<^verbatim>\<open>Column(JSON)\<close>, and the keys of a JSON
  object are strings: in a row read from the store they are \<^verbatim>\<open>str\<close> objects, the
  decimal texts of the user ids. A Python dictionary holds keys of both types side by side,
  and an \<^verbatim>\<open>int\<close> never equals a \<^verbatim>\<open>str\<close>; \<open>key\<close> is the type of such keys.
\<close>

datatype key = IntKey int | StrKey string

datatype ExpenseType = one_time | long_term

type_synonym date = "int \<times> int \<times> int"

record User =
  user_id :: int
  user_name :: string

record Room =
  room_id :: int
  room_name :: string
  expense_type :: ExpenseType
  invoices :: "int list"
  participants :: "User list"

text \<open>The fields of an invoice, over the type \<open>'k\<close> of the keys of \<^verbatim>\<open>user_sums\<close>.
  A request that creates an invoice is an \<open>int DataCreate\<close> (schemas.DataCreate).\<close>

record 'k DataCreate =
  name :: string
  description :: "string option"
  date :: "date option"
  total :: real
  user_sums :: "('k \<times> real) list"
  creator_id :: int

text \<open>models.Data: a stored invoice, the fields above with the primary key and the
  closed flag. A row of the table is a \<open>string Data\<close>.\<close>

record 'k Data = "'k DataCreate" +
  data_id :: int
  status :: bool

record db =
  users :: "User list"
  rooms :: "Room list"
  data :: "string Data list"

subsection \<open>Exceptions\<close>

text \<open>
  \<open>HTTPException c d\<close> is FastAPI's exception with status code \<open>c\<close> and detail \<open>d\<close>.
  Several handlers build a detail as \<^verbatim>\<open>str(e)\<close> from a caught exception \<open>e\<close>; the
  text that \<^verbatim>\<open>str\<close> produces belongs to the library, so the detail keeps the
  exception itself: \<open>Str e\<close>. An exception that no handler catches reaches the
  framework unchanged.
\<close>

datatype exn =
    HTTPException (status_code: nat) (detail: detail)
  | AttributeError string
  | IntegrityError string
and detail = Text string | Str exn

definition find_user :: "db \<Rightarrow> int \<Rightarrow> User option" where
  "find_user st k = find (\<lambda>u. user_id u = k) (users st)"

definition find_room :: "db \<Rightarrow> int \<Rightarrow> Room option" where
  "find_room st k = find (\<lambda>r. room_id r = k) (rooms st)"

definition find_invoice :: "db \<Rightarrow> int \<Rightarrow> string Data option" where
  "find_invoice st k = find (\<lambda>d. data_id d = k) (data st)"

section \<open>Binary64 arithmetic\<close>

text \<open>
  Python's \<^verbatim>\<open>float\<close> is IEEE 754 binary64: a sum or difference is the exact result
  rounded to the nearest number with a significand of 53 bits, a tie going to the even
  significand. The spacing of the numbers never falls below \<open>2 ^ -1074\<close>, the smallest
  positive one. \<open>round_binary64\<close> counts in that unit: \<open>y\<close> is the magnitude in units of
  \<open>2 ^ -1074\<close>, and the bits of \<open>y\<close> beyond 53 are rounded away. The model has the
  finite numbers only: it has no infinity and no NaN, and a result beyond the largest
  binary64 number is rounded like any other.
\<close>

definition emin :: nat where
  "emin = 1074"

text \<open>\<^verbatim>\<open>int.bit_length()\<close>\<close>

function bit_length :: "int \<Rightarrow> nat" where
  "bit_length n = (if n \<le> 0 then 0 else Suc (bit_length (n div 2)))"
  by pat_completeness auto
termination
  by (relation "measure nat") auto

declare bit_length.simps [simp del]

text \<open>The nearest integer, a tie going to the even one.\<close>

definition round_even :: "real \<Rightarrow> int" where
  "round_even x =
     (let n = \<lfloor>x\<rfloor>; d = x - of_int n
      in if d < 1 / 2 then n else if 1 / 2 < d then n + 1 else if even n then n else n + 1)"

definition round_binary64 :: "real \<Rightarrow> real" where
  "round_binary64 x =
     (let y = \<bar>x\<bar> * 2 ^ emin;
          bits = bit_length \<lfloor>y\<rfloor>;
          shift = (if 53 < bits then bits - 53 else 0)
      in sgn x * (of_int (round_even (y / 2 ^ shift)) * 2 ^ shift / 2 ^ emin))"

definition fadd :: "real \<Rightarrow> real \<Rightarrow> real" where
  "fadd x y = round_binary64 (x + y)"

definition fsub :: "real \<Rightarrow> real \<Rightarrow> real" where
  "fsub x y = round_binary64 (x - y)"

section \<open>Balances of a room (get\_balances\_in\_room)\<close>

type_synonym debts = "(key \<times> (key \<times> real) list) list"

text \<open>\<^verbatim>\<open>invoice.user_sums.items()\<close> of a stored invoice: the keys are \<^verbatim>\<open>str\<close>
  objects.\<close>

definition items :: "string Data \<Rightarrow> (key \<times> real) list" where
  "items invoice = map (\<lambda>(k, amount). (StrKey k, amount)) (user_sums invoice)"

text \<open>\<^verbatim>\<open>debts[user_id][creator_id] += amount\<close> on a defaultdict of defaultdict(float):
  a missing outer key starts an empty inner dictionary, a missing inner key starts at 0.0.\<close>

definition add_debt :: "debts \<Rightarrow> key \<Rightarrow> key \<Rightarrow> real \<Rightarrow> debts" where
  "add_debt debts uid cid amount =
     (let inner = (case map_of debts uid of None \<Rightarrow> [] | Some m \<Rightarrow> m);
          current = (case map_of inner cid of None \<Rightarrow> 0 | Some x \<Rightarrow> x)
      in AList.update uid (AList.update cid (fadd current amount) inner) debts)"

text \<open>The loop over \<^verbatim>\<open>user_sums.items()\<close> of one invoice. The test
  \<^verbatim>\<open>user_id != creator_id\<close> compares the key with the creator's id as Python does:
  a \<^verbatim>\<open>str\<close> key differs from every \<^verbatim>\<open>int\<close>.\<close>

fun add_user_sums :: "key \<Rightarrow> (key \<times> real) list \<Rightarrow> debts \<Rightarrow> debts" where
  "add_user_sums cid [] debts = debts"
| "add_user_sums cid ((uid, amount) # rest) debts =
     add_user_sums cid rest (if uid \<noteq> cid then add_debt debts uid cid amount else debts)"

text \<open>The loop over \<^verbatim>\<open>room.invoices\<close>: an id that does not resolve and an invoice
  with no contributions are passed over. \<^verbatim>\<open>invoice.creator_id\<close> is an integer
  column.\<close>

fun collect_debts :: "db \<Rightarrow> int list \<Rightarrow> debts \<Rightarrow> debts" where
  "collect_debts st [] debts = debts"
| "collect_debts st (invoice_id # rest) debts =
     (case find_invoice st invoice_id of
        None \<Rightarrow> collect_debts st rest debts
      | Some invoice \<Rightarrow>
          if user_sums invoice = [] then collect_debts st rest debts
          else collect_debts st rest
                 (add_user_sums (IntKey (creator_id invoice)) (items invoice) debts))"

text \<open>\<^verbatim>\<open>debts.get(a, {}).get(b, 0)\<close>\<close>

definition debts_get :: "debts \<Rightarrow> key \<Rightarrow> key \<Rightarrow> real" where
  "debts_get debts a b =
     (case map_of debts a of
        None \<Rightarrow> 0
      | Some m \<Rightarrow> (case map_of m b of None \<Rightarrow> 0 | Some x \<Rightarrow> x))"

text \<open>The simplified ledger is keyed by the ids of the participants, which are integers
  (\<^verbatim>\<open>User.id\<close>).\<close>

type_synonym ledger = "(int \<times> (int \<times> real) list) list"

text \<open>\<^verbatim>\<open>simplified_debts[debtor_id][creditor_id] = net_amount\<close> on a defaultdict(dict).\<close>

definition set_entry :: "ledger \<Rightarrow> int \<Rightarrow> int \<Rightarrow> real \<Rightarrow> ledger" where
  "set_entry simplified debtor creditor amount =
     AList.update debtor
       (AList.update creditor amount
          (case map_of simplified debtor of None \<Rightarrow> [] | Some m \<Rightarrow> m))
       simplified"

text \<open>The inner loop, over the creditors of one debtor. The gross debts are looked up
  under the integer ids of the participants.\<close>

fun net_creditors :: "debts \<Rightarrow> int \<Rightarrow> int list \<Rightarrow> ledger \<Rightarrow> ledger" where
  "net_creditors debts debtor_id [] simplified = simplified"
| "net_creditors debts debtor_id (creditor_id # rest) simplified =
     (if debtor_id = creditor_id then net_creditors debts debtor_id rest simplified
      else
        (let amount_owed = debts_get debts (IntKey debtor_id) (IntKey creditor_id);
             reverse_amount = debts_get debts (IntKey creditor_id) (IntKey debtor_id);
             net_amount = fsub amount_owed reverse_amount
         in net_creditors debts debtor_id rest
              (if net_amount > 0 then set_entry simplified debtor_id creditor_id net_amount
               else simplified)))"

text \<open>The outer loop, over the debtors; both loops run over the same keys.\<close>

fun net_debtors :: "debts \<Rightarrow> int list \<Rightarrow> int list \<Rightarrow> ledger \<Rightarrow> ledger" where
  "net_debtors debts [] keys simplified = simplified"
| "net_debtors debts (debtor_id # rest) keys simplified =
     net_debtors debts rest keys (net_creditors debts debtor_id keys simplified)"

text \<open>\<^verbatim>\<open>{user.id: user for user in room.participants}\<close> and its keys.\<close>

definition participants_dict :: "User list \<Rightarrow> (int \<times> User) list" where
  "participants_dict us = fold (\<lambda>u d. AList.update (user_id u) u d) us []"

definition participant_ids :: "Room \<Rightarrow> int list" where
  "participant_ids room = map fst (participants_dict (participants room))"

text \<open>The gross debts of a room and their netting.\<close>

definition gross_debts :: "db \<Rightarrow> Room \<Rightarrow> debts" where
  "gross_debts st room = collect_debts st (invoices room) []"

definition simplify :: "debts \<Rightarrow> int list \<Rightarrow> ledger" where
  "simplify debts keys =
     filter (\<lambda>(debtor_id, creditors). creditors \<noteq> []) (net_debtors debts keys keys [])"

definition get_balances_in_room :: "db \<Rightarrow> int \<Rightarrow> exn + ledger" where
  "get_balances_in_room st rid =
     (case find_room st rid of
        None \<Rightarrow> Inl (HTTPException 404 (Text ''Room not found''))
      | Some room \<Rightarrow> Inr (simplify (gross_debts st room) (participant_ids room)))"


definition debts_entry :: "debts \<Rightarrow> key \<Rightarrow> key \<Rightarrow> real option" where
  "debts_entry d a b = (case map_of d a of None \<Rightarrow> None | Some m \<Rightarrow> map_of m b)"

text \<open>The net amount that the inner loop computes for a debtor and a creditor.\<close>

definition net_of :: "debts \<Rightarrow> int \<Rightarrow> int \<Rightarrow> real" where
  "net_of debts debtor creditor =
     fsub (debts_get debts (IntKey debtor) (IntKey creditor))
          (debts_get debts (IntKey creditor) (IntKey debtor))"

section \<open>Query helpers\<close>



text \<open>get\_balance\_between\_users\_in\_room: two running sums over the invoices that
  resolve. \<^verbatim>\<open>user1_id in user_sums\<close> looks the integer id up among the keys of
  the stored dictionary.\<close>

fun sum_balances :: "db \<Rightarrow> int \<Rightarrow> int \<Rightarrow> int list \<Rightarrow> real \<times> real \<Rightarrow> real \<times> real" where
  "sum_balances st user1_id user2_id [] (user1_balance, user2_balance) =
     (user1_balance, user2_balance)"
| "sum_balances st user1_id user2_id (invoice_id # rest) (user1_balance, user2_balance) =
     (case find_invoice st invoice_id of
        None \<Rightarrow> sum_balances st user1_id user2_id rest (user1_balance, user2_balance)
      | Some invoice \<Rightarrow>
          sum_balances st user1_id user2_id rest
            (case map_of (items invoice) (IntKey user1_id) of
               None \<Rightarrow> user1_balance | Some x \<Rightarrow> fadd user1_balance x,
             case map_of (items invoice) (IntKey user2_id) of
               None \<Rightarrow> user2_balance | Some x \<Rightarrow> fadd user2_balance x))"

definition get_balance_between_users_in_room :: "db \<Rightarrow> int \<Rightarrow> int \<Rightarrow> int \<Rightarrow> exn + real" where
  "get_balance_between_users_in_room st rid user1_id user2_id =
     (case find_room st rid of
        None \<Rightarrow> Inl (HTTPException 404 (Text ''Room not found''))
      | Some room \<Rightarrow>
          (case sum_balances st user1_id user2_id (invoices room) (0, 0) of
             (user1_balance, user2_balance) \<Rightarrow> Inr (fsub user1_balance user2_balance)))"

section \<open>Direct lookups\<close>

definition expense_value :: "ExpenseType \<Rightarrow> string" where
  "expense_value t = (case t of one_time \<Rightarrow> ''one_time'' | long_term \<Rightarrow> ''long_term'')"

text \<open>get\_room answers with the name, the value of the expense type, the participants
  and the invoice ids of the room.\<close>

definition get_room :: "db \<Rightarrow> int \<Rightarrow> exn + (string \<times> string \<times> User list \<times> int list)" where
  "get_room st rid =
     (case find_room st rid of
        None \<Rightarrow> Inl (HTTPException 404 (Text ''Room not found''))
      | Some room \<Rightarrow>
          Inr (room_name room, expense_value (expense_type room), participants room, invoices room))"

text \<open>The invoice handlers run inside
  \<^verbatim>\<open>try: ... except Exception as e: raise HTTPException(status_code=400, detail=str(e))\<close>.
  HTTPException is an Exception, so the handler also catches the exceptions that the
  body raises itself.\<close>

definition except_Exception :: "exn + 'a \<Rightarrow> exn + 'a" where
  "except_Exception r =
     (case r of Inl e \<Rightarrow> Inl (HTTPException 400 (Str e)) | Inr v \<Rightarrow> Inr v)"

definition get_invoice :: "db \<Rightarrow> int \<Rightarrow> exn + string Data" where
  "get_invoice st invoice_id =
     except_Exception
       (case find_invoice st invoice_id of
          None \<Rightarrow> Inl (HTTPException 404 (Text ''Invoice not found''))
        | Some invoice \<Rightarrow> Inr invoice)"

section \<open>Closing an invoice\<close>

text \<open>The handlers that receive a session return the store they leave behind together
  with their answer.\<close>

definition request_close_invoice :: "db \<Rightarrow> int \<Rightarrow> db \<times> (exn + string Data)" where
  "request_close_invoice st invoice_id =
     (st, except_Exception
            (case find_invoice st invoice_id of
               None \<Rightarrow> Inl (HTTPException 404 (Text ''Invoice not found''))
             | Some invoice \<Rightarrow>
                 if status invoice then Inl (HTTPException 400 (Text ''Invoice is already closed''))
                 else Inr invoice))"

text \<open>\<^verbatim>\<open>invoice.status = True; db.commit()\<close> writes the flag of the row with this
  primary key.\<close>

definition close_row :: "int \<Rightarrow> string Data list \<Rightarrow> string Data list" where
  "close_row invoice_id rows =
     map (\<lambda>d. if data_id d = invoice_id then d\<lparr>status := True\<rparr> else d) rows"

definition confirm_close_invoice :: "db \<Rightarrow> int \<Rightarrow> db \<times> (exn + string Data)" where
  "confirm_close_invoice st invoice_id =
     (case find_invoice st invoice_id of
        None \<Rightarrow> (st, except_Exception (Inl (HTTPException 404 (Text ''Invoice not found''))))
      | Some invoice \<Rightarrow>
          if status invoice
          then (st, except_Exception (Inl (HTTPException 400 (Text ''Invoice is already closed''))))
          else (st\<lparr>data := close_row invoice_id (data st)\<rparr>,
                except_Exception (Inr (invoice\<lparr>status := True\<rparr>))))"

section \<open>Creating an invoice\<close>

text \<open>\<^verbatim>\<open>f"User {user_id}"\<close>: the decimal text of a Python integer. The JSON
  encoder writes an integer key of a dictionary as the same text.\<close>

fun digits :: "nat \<Rightarrow> string" where
  "digits n =
     (if n < 10 then [''0123456789'' ! n]
      else digits (n div 10) @ [''0123456789'' ! (n mod 10)])"

declare digits.simps [simp del]

definition str_int :: "int \<Rightarrow> string" where
  "str_int i = (if i < 0 then CHR ''-'' # digits (nat (- i)) else digits (nat i))"

text \<open>The first loop of create\_invoice: a user row is added and committed for every key of
  \<^verbatim>\<open>user_sums\<close> that names no user yet. The column \<^verbatim>\<open>users.name\<close> is unique, so
  the commit is refused when the generated name is taken.\<close>

fun ensure_users :: "db \<Rightarrow> int list \<Rightarrow> User list \<Rightarrow> db \<times> (exn + User list)" where
  "ensure_users st [] us = (st, Inr us)"
| "ensure_users st (uid # rest) us =
     (case find_user st uid of
        Some user \<Rightarrow> ensure_users st rest (us @ [user])
      | None \<Rightarrow>
          (let user = \<lparr>user_id = uid, user_name = ''User '' @ str_int uid\<rparr>
           in if find (\<lambda>u. user_name u = user_name user) (users st) \<noteq> None
              then (st, Inl (IntegrityError ''users.name''))
              else ensure_users (st\<lparr>users := users st @ [user]\<rparr>) rest (us @ [user])))"

text \<open>create\_invoice reads \<^verbatim>\<open>invoice.room_id\<close>, where \<^verbatim>\<open>invoice\<close> is a
  schemas.DataCreate. That class declares the six fields of the record \<open>DataCreate\<close> and
  no \<^verbatim>\<open>room_id\<close> (extra fields of a request are dropped), so the attribute access
  raises AttributeError.\<close>

definition room_id_of :: "int DataCreate \<Rightarrow> exn + int" where
  "room_id_of invoice = Inl (AttributeError ''room_id'')"

text \<open>\<^verbatim>\<open>for user in users: if user not in room.participants: room.participants.append(user)\<close>\<close>

fun sync_participants :: "User list \<Rightarrow> User list \<Rightarrow> User list" where
  "sync_participants [] ps = ps"
| "sync_participants (user # rest) ps =
     sync_participants rest (if user \<in> set ps then ps else ps @ [user])"

definition next_data_id :: "string Data list \<Rightarrow> int" where
  "next_data_id rows = (if rows = [] then 1 else Max (set (map data_id rows)) + 1)"

text \<open>The rest of create\_invoice, from the lookup of the room on: the participants of the
  room are completed, the new invoice is stored open and returned as
  \<^verbatim>\<open>db.refresh\<close> reads it back, its \<^verbatim>\<open>user_sums\<close> keyed by strings.\<close>

definition attach_invoice ::
  "db \<Rightarrow> int DataCreate \<Rightarrow> User list \<Rightarrow> int \<Rightarrow> db \<times> (exn + string Data)" where
  "attach_invoice st invoice us rid =
     (case find_room st rid of
        None \<Rightarrow> (st, Inl (HTTPException 404 (Text ''Room not found'')))
      | Some room \<Rightarrow>
          (let ps = sync_participants us (participants room);
               new_invoice =
                 \<lparr>name = name invoice, description = description invoice, date = date invoice,
                  total = total invoice,
                  user_sums = map (\<lambda>(k, amount). (str_int k, amount)) (user_sums invoice),
                  creator_id = creator_id invoice,
                  data_id = next_data_id (data st), status = False\<rparr>
           in (st\<lparr>rooms := map (\<lambda>r. if room_id r = rid then r\<lparr>participants := ps\<rparr> else r) (rooms st),
                  data := data st @ [new_invoice]\<rparr>,
               Inr new_invoice)))"

definition create_invoice :: "db \<Rightarrow> int DataCreate \<Rightarrow> db \<times> (exn + string Data)" where
  "create_invoice st invoice =
     (case find_user st (creator_id invoice) of
        None \<Rightarrow> (st, Inl (HTTPException 404 (Text ''Creator not found'')))
      | Some creator \<Rightarrow>
          (case ensure_users st (map fst (user_sums invoice)) [] of
             (st1, Inl e) \<Rightarrow> (st1, Inl e)
           | (st1, Inr us) \<Rightarrow>
               (case room_id_of invoice of
                  Inl e \<Rightarrow> (st1, Inl e)
                | Inr rid \<Rightarrow> attach_invoice st1 invoice us rid)))"


section \<open>Reference notions and example stores\<close>

text \<open>The invoices that the ids of a list resolve to, in the order of the list; ids with no
  row are left out.\<close>

fun resolved :: "db \<Rightarrow> int list \<Rightarrow> string Data list" where
  "resolved st [] = []"
| "resolved st (i # ids) =
     (case find_invoice st i of None \<Rightarrow> resolved st ids | Some d \<Rightarrow> d # resolved st ids)"

text \<open>The amounts that one invoice adds to \<^verbatim>\<open>debts[a][b]\<close>, in the order of its
  \<^verbatim>\<open>user_sums\<close>, and the amounts that the invoices of a list of ids add, in the order of
  the list.\<close>

definition contributions_of :: "key \<Rightarrow> key \<Rightarrow> string Data \<Rightarrow> real list" where
  "contributions_of a b invoice =
     map snd (filter (\<lambda>(k, amount). k = a \<and> IntKey (creator_id invoice) = b \<and> k \<noteq> b)
                (items invoice))"

fun contributions :: "db \<Rightarrow> key \<Rightarrow> key \<Rightarrow> int list \<Rightarrow> real list" where
  "contributions st a b [] = []"
| "contributions st a b (i # ids) =
     (case find_invoice st i of
        None \<Rightarrow> contributions st a b ids
      | Some invoice \<Rightarrow> contributions_of a b invoice @ contributions st a b ids)"

text \<open>The binary64 sum of a list, added from 0.0 in the order of the list, and the value of
  a dictionary entry after such additions: an entry that receives nothing stays as it
  is.\<close>

definition fsum :: "real list \<Rightarrow> real" where
  "fsum xs = foldl fadd 0 xs"

definition accumulate :: "real option \<Rightarrow> real list \<Rightarrow> real option" where
  "accumulate e xs =
     (if xs = [] then e else Some (foldl fadd (case e of None \<Rightarrow> 0 | Some y \<Rightarrow> y) xs))"

text \<open>The room of the specification's example as the store holds it: participants 1, 2
  and 3, invoice I1 by user 1 with contributions 2: 30 and 3: 20, invoice I2 by user 2 with
  contribution 1: 10. The keys of the stored contribution maps are the strings "2", "3"
  and "1".\<close>

definition room_R :: Room where
  "room_R = \<lparr>room_id = 1, room_name = ''R'', expense_type = one_time, invoices = [1, 2],
     participants = [\<lparr>user_id = 1, user_name = ''u1''\<rparr>, \<lparr>user_id = 2, user_name = ''u2''\<rparr>,
       \<lparr>user_id = 3, user_name = ''u3''\<rparr>]\<rparr>"

definition db_R :: db where
  "db_R = \<lparr>users = participants room_R, rooms = [room_R],
     data = [\<lparr>name = ''I1'', description = None, date = None, total = 50,
               user_sums = [(''2'', 30), (''3'', 20)], creator_id = 1, data_id = 1, status = False\<rparr>,
             \<lparr>name = ''I2'', description = None, date = None, total = 10,
               user_sums = [(''1'', 10)], creator_id = 2, data_id = 2, status = False\<rparr>]\<rparr>"

text \<open>A second store: one room whose invoice list names an open invoice, an id without a
  row (99) and a closed invoice.\<close>

definition user_1 :: User where "user_1 = \<lparr>user_id = 1, user_name = ''Ann''\<rparr>"

definition user_2 :: User where "user_2 = \<lparr>user_id = 2, user_name = ''Bob''\<rparr>"

definition user_3 :: User where "user_3 = \<lparr>user_id = 3, user_name = ''Eve''\<rparr>"

definition invoice_1 :: "string Data" where
  "invoice_1 = \<lparr>name = ''rent'', description = None, date = None, total = 40,
     user_sums = [(''1'', 30), (''2'', 10)], creator_id = 3, data_id = 1, status = False\<rparr>"

definition invoice_2 :: "string Data" where
  "invoice_2 = \<lparr>name = ''taxi'', description = Some ''airport'', date = Some (2024, 11, 30),
     total = 5, user_sums = [(''2'', 5)], creator_id = 1, data_id = 2, status = True\<rparr>"

definition room_S :: Room where
  "room_S = \<lparr>room_id = 1, room_name = ''flat'', expense_type = long_term,
     invoices = [1, 99, 2], participants = [user_1, user_2, user_3]\<rparr>"

definition db_S :: db where
  "db_S = \<lparr>users = [user_1, user_2, user_3], rooms = [room_S], data = [invoice_1, invoice_2]\<rparr>"

text \<open>A request to create an invoice whose contribution map names user 4, who is not in
  the store.\<close>

definition request_4 :: "int DataCreate" where
  "request_4 = \<lparr>name = ''pizza'', description = None, date = None, total = 12,
     user_sums = [(4, 12)], creator_id = 1\<rparr>"

text \<open>A gross map keyed by integers, as the netting loops look it up: user 2 owes user 1
  the amount 30 and user 1 owes user 2 the amount 10.\<close>

definition gross_int :: debts where
  "gross_int = [(IntKey 2, [(IntKey 1, 30)]), (IntKey 1, [(IntKey 2, 10)])]"

text \<open>The binary64 numbers that Python writes \<^verbatim>\<open>0.1\<close>, \<^verbatim>\<open>0.2\<close> and \<^verbatim>\<open>0.3\<close>,
  and a store with three invoices of user 1 in which user 2 owes these amounts.\<close>

definition d01 :: real where "d01 = 3602879701896397 / 2 ^ 55"

definition d02 :: real where "d02 = 3602879701896397 / 2 ^ 54"

definition d03 :: real where "d03 = 5404319552844595 / 2 ^ 54"

text \<open>The binary64 numbers \<^verbatim>\<open>0.30000000000000004\<close>, \<^verbatim>\<open>0.5\<close>, \<^verbatim>\<open>0.6\<close> and
  \<^verbatim>\<open>0.6000000000000001\<close>.\<close>

definition d03_next :: real where "d03_next = 5404319552844596 / 2 ^ 54"

definition d05 :: real where "d05 = 1 / 2"

definition d06 :: real where "d06 = 5404319552844595 / 2 ^ 53"

definition d06_next :: real where "d06_next = 5404319552844596 / 2 ^ 53"

definition owed_by_2 :: "int \<Rightarrow> real \<Rightarrow> string Data" where
  "owed_by_2 i amount = \<lparr>name = ''share'', description = None, date = None, total = amount,
     user_sums = [(''2'', amount)], creator_id = 1, data_id = i, status = False\<rparr>"

definition db_F :: db where
  "db_F = \<lparr>users = [user_1, user_2], rooms = [],
     data = [owed_by_2 1 d01, owed_by_2 2 d02, owed_by_2 3 d03]\<rparr>"

text \<open>The same store with the amounts 30, 12 and 7.\<close>

definition db_T :: db where
  "db_T = \<lparr>users = [user_1, user_2], rooms = [],
     data = [owed_by_2 1 30, owed_by_2 2 12, owed_by_2 3 7]\<rparr>"

section \<open>Facts about binary64 rounding\<close>

lemma bit_length_eqI: "2 ^ k \<le> n \<Longrightarrow> n < 2 ^ Suc k \<Longrightarrow> bit_length n = Suc k"
proof (induction k arbitrary: n)
  case 0
  then have "n = 1" by simp
  then show ?case by (simp add: bit_length.simps)
next
  case (Suc k)
  have "2 ^ k \<le> n div 2" "n div 2 < 2 ^ Suc k"
    using Suc.prems by simp_all
  then have "bit_length (n div 2) = Suc k" by (rule Suc.IH)
  moreover have "0 < n" using Suc.prems(1) by (smt (verit) zero_less_power)
  ultimately show ?case by (subst bit_length.simps) simp
qed

lemma bit_length_small: "n < 2 ^ k \<Longrightarrow> bit_length n \<le> k"
proof (induction k arbitrary: n)
  case 0
  then show ?case by (simp add: bit_length.simps)
next
  case (Suc k)
  have "n div 2 < 2 ^ k" using Suc.prems by simp
  then have "bit_length (n div 2) \<le> k" by (rule Suc.IH)
  then show ?case by (subst bit_length.simps) simp
qed

lemma round_even_of_int: "round_even (of_int n) = n"
  by (simp add: round_even_def)

lemma round_even_nonneg: "0 \<le> x \<Longrightarrow> 0 \<le> round_even x"
  by (auto simp: round_even_def Let_def)

lemma round_binary64_shift:
  assumes "2 ^ (s + 52) \<le> \<bar>x\<bar> * 2 ^ emin" and "\<bar>x\<bar> * 2 ^ emin < 2 ^ (s + 53)"
  shows "round_binary64 x =
    sgn x * (of_int (round_even (\<bar>x\<bar> * 2 ^ emin / 2 ^ s)) * 2 ^ s / 2 ^ emin)"
proof -
  let ?y = "\<bar>x\<bar> * 2 ^ emin"
  have "of_int (2 ^ (s + 52)) \<le> ?y" using assms(1) by simp
  then have lo: "2 ^ (s + 52) \<le> \<lfloor>?y\<rfloor>" by (simp only: le_floor_iff)
  have "?y < of_int (2 ^ Suc (s + 52))" using assms(2) by (simp add: add.commute)
  then have hi: "\<lfloor>?y\<rfloor> < 2 ^ Suc (s + 52)" by (simp only: floor_less_iff)
  have "bit_length \<lfloor>?y\<rfloor> = Suc (s + 52)" using lo hi by (rule bit_length_eqI)
  then show ?thesis by (simp add: round_binary64_def Let_def)
qed

lemma round_binary64_normal:
  assumes k: "k \<le> emin" and lo: "2 ^ 52 \<le> \<bar>x\<bar> * 2 ^ k" and hi: "\<bar>x\<bar> * 2 ^ k < 2 ^ 53"
  shows "round_binary64 x = sgn x * (of_int (round_even (\<bar>x\<bar> * 2 ^ k)) / 2 ^ k)"
proof -
  define s where "s = emin - k"
  have e: "(2::real) ^ emin = 2 ^ k * 2 ^ s"
    using k by (simp add: s_def flip: power_add)
  have "(2::real) ^ (s + 52) = 2 ^ 52 * 2 ^ s" by (simp add: power_add)
  also have "\<dots> \<le> (\<bar>x\<bar> * 2 ^ k) * 2 ^ s"
    using lo by (rule mult_right_mono) simp
  finally have 1: "2 ^ (s + 52) \<le> \<bar>x\<bar> * 2 ^ emin" by (simp add: e mult.assoc)
  have "(\<bar>x\<bar> * 2 ^ k) * 2 ^ s < 2 ^ 53 * 2 ^ s"
    using hi by (rule mult_strict_right_mono) simp
  also have "\<dots> = (2::real) ^ (s + 53)" by (simp add: power_add)
  finally have 2: "\<bar>x\<bar> * 2 ^ emin < 2 ^ (s + 53)" by (simp add: e mult.assoc)
  have 3: "\<bar>x\<bar> * 2 ^ emin / 2 ^ s = \<bar>x\<bar> * 2 ^ k" by (simp add: e)
  show ?thesis
    unfolding round_binary64_shift [OF 1 2] 3 by (simp add: e)
qed

lemma round_binary64_0: "round_binary64 0 = 0"
  by (simp add: round_binary64_def)

lemma round_binary64_minus: "round_binary64 (- x) = - round_binary64 x"
  by (simp add: round_binary64_def Let_def sgn_minus)

lemma round_binary64_pos: "0 < round_binary64 x \<Longrightarrow> 0 < x"
proof (rule ccontr)
  assume pos: "0 < round_binary64 x" and "\<not> 0 < x"
  then have "sgn x \<le> 0" by (simp add: sgn_if)
  moreover have "0 \<le> of_int (round_even (\<bar>x\<bar> * 2 ^ emin / 2 ^ s)) * 2 ^ s / (2 ^ emin :: real)" for s
    by (simp add: round_even_nonneg)
  ultimately have "round_binary64 x \<le> 0"
    unfolding round_binary64_def Let_def by (rule mult_nonpos_nonneg)
  with pos show False by simp
qed

lemma round_binary64_of_int:
  assumes "\<bar>n\<bar> < 2 ^ 53"
  shows "round_binary64 (of_int n) = of_int n"
proof (cases "n = 0")
  case True
  then show ?thesis by (simp add: round_binary64_0)
next
  case False
  then have "1 \<le> nat \<bar>n\<bar>" by simp
  then obtain j where j: "2 ^ j \<le> nat \<bar>n\<bar>" "nat \<bar>n\<bar> < 2 ^ (j + 1)"
    using ex_power_ivl1 [of 2 "nat \<bar>n\<bar>"] by auto
  have lo_int: "2 ^ j \<le> \<bar>n\<bar>" and hi_int: "\<bar>n\<bar> < 2 ^ (j + 1)"
    using j by (simp_all add: le_nat_iff nat_less_iff)
  have "(2::int) ^ j < 2 ^ 53" using lo_int assms by (rule le_less_trans)
  then have "j < 53" by (rule power_less_imp_less_exp [rotated]) simp
  then have j52: "j \<le> 52" by simp
  define k where "k = 52 - j"
  have kj: "k + j = 52" using j52 by (simp add: k_def)
  have scaled: "\<bar>real_of_int n\<bar> * 2 ^ k = of_int (\<bar>n\<bar> * 2 ^ k)" by simp
  have "(2::int) ^ 52 = 2 ^ j * 2 ^ k" using kj by (simp flip: power_add add: add.commute)
  also have "\<dots> \<le> \<bar>n\<bar> * 2 ^ k" using lo_int by (rule mult_right_mono) simp
  finally have "(2::int) ^ 52 \<le> \<bar>n\<bar> * 2 ^ k" .
  then have "real_of_int (2 ^ 52) \<le> real_of_int (\<bar>n\<bar> * 2 ^ k)" by (simp only: of_int_le_iff)
  then have lo: "2 ^ 52 \<le> \<bar>real_of_int n\<bar> * 2 ^ k" by (simp only: scaled) simp
  have "\<bar>n\<bar> * 2 ^ k < 2 ^ (j + 1) * 2 ^ k" using hi_int by (rule mult_strict_right_mono) simp
  also have "\<dots> = (2::int) ^ 53" using kj by (simp flip: power_add add: ac_simps)
  finally have "real_of_int (\<bar>n\<bar> * 2 ^ k) < real_of_int (2 ^ 53)" by (simp only: of_int_less_iff)
  then have hi: "\<bar>real_of_int n\<bar> * 2 ^ k < 2 ^ 53" by (simp only: scaled) simp
  have k: "k \<le> emin" by (simp add: k_def emin_def)
  have "round_binary64 (of_int n) =
      sgn (real_of_int n) * (of_int (round_even (of_int (\<bar>n\<bar> * 2 ^ k))) / 2 ^ k)"
    unfolding round_binary64_normal [OF k lo hi] scaled ..
  also have "\<dots> = sgn (real_of_int n) * (of_int (\<bar>n\<bar> * 2 ^ k) / 2 ^ k)"
    by (simp only: round_even_of_int)
  also have "\<dots> = sgn (real_of_int n) * \<bar>real_of_int n\<bar>"
    by simp
  also have "\<dots> = of_int n" by (simp add: sgn_if)
  finally show ?thesis .
qed


lemma round_binary64_numeral:
  "\<bar>numeral w :: int\<bar> < 2 ^ 53 \<Longrightarrow> round_binary64 (numeral w) = numeral w"
  using round_binary64_of_int [of "numeral w"] by simp


lemma fsub_self: "fsub a a = 0"
  by (simp add: fsub_def round_binary64_0)

lemma fadd_d01: "fadd 0 d01 = d01"
  unfolding fadd_def d01_def
  by (subst round_binary64_normal [where k = 56]) (simp_all add: round_even_def emin_def)

lemma fadd_d01_d02: "fadd d01 d02 = d03_next"
  unfolding fadd_def d01_def d02_def d03_next_def
  by (subst round_binary64_normal [where k = 54]) (simp_all add: round_even_def emin_def)

lemma fadd_d03_next_d03: "fadd d03_next d03 = d06_next"
  unfolding fadd_def d03_def d03_next_def d06_next_def
  by (subst round_binary64_normal [where k = 53]) (simp_all add: round_even_def emin_def)

lemma fadd_d03: "fadd 0 d03 = d03"
  unfolding fadd_def d03_def
  by (subst round_binary64_normal [where k = 54]) (simp_all add: round_even_def emin_def)

lemma fadd_d03_d02: "fadd d03 d02 = d05"
  unfolding fadd_def d03_def d02_def d05_def
  by (subst round_binary64_normal [where k = 53]) (simp_all add: round_even_def emin_def)

lemma fadd_d05_d01: "fadd d05 d01 = d06"
  unfolding fadd_def d01_def d05_def d06_def
  by (subst round_binary64_normal [where k = 53]) (simp_all add: round_even_def emin_def)

lemma d06_next_neq: "d06_next \<noteq> d06"
  by (simp add: d06_next_def d06_def)

section \<open>Facts about the example stores\<close>

lemma find_room_S: "find_room db_S 1 = Some room_S"
  by (simp add: find_room_def db_S_def room_S_def)

lemma find_invoice_S:
  "find_invoice db_S 1 = Some invoice_1" "find_invoice db_S 2 = Some invoice_2"
  "find_invoice db_S 99 = None"
  by (simp_all add: find_invoice_def db_S_def invoice_1_def invoice_2_def)

lemma invoices_S: "invoices room_S = [1, 99, 2]"
  by (simp add: room_S_def)

lemma participants_S: "user_id ` set (participants room_S) = {1, 2, 3}"
  by (simp add: room_S_def user_1_def user_2_def user_3_def)

lemma ids_S: "participant_ids room_S = [1, 2, 3]"
  by (simp add: participant_ids_def participants_dict_def room_S_def
      user_1_def user_2_def user_3_def)

lemma gross_S:
  "gross_debts db_S room_S =
     [(StrKey ''1'', [(IntKey 3, 30)]), (StrKey ''2'', [(IntKey 3, 10), (IntKey 1, 5)])]"
  by (simp add: gross_debts_def invoices_S find_invoice_S invoice_1_def invoice_2_def
      items_def add_debt_def fadd_def round_binary64_numeral)

lemma balances_S: "get_balances_in_room db_S 1 = Inr []"
  by (simp add: get_balances_in_room_def find_room_S gross_S ids_S simplify_def
      debts_get_def fsub_self)


lemma simplify_gross_int: "simplify gross_int [1, 2, 3] = [(2, [(1, 20)])]"
  by (simp add: simplify_def gross_int_def debts_get_def set_entry_def fsub_def
      round_binary64_numeral round_binary64_0 round_binary64_minus [of 20, simplified])

lemma gross_R:
  "gross_debts db_R room_R =
     [(StrKey ''2'', [(IntKey 1, 30)]), (StrKey ''3'', [(IntKey 1, 20)]),
      (StrKey ''1'', [(IntKey 2, 10)])]"
  by (simp add: gross_debts_def db_R_def room_R_def find_invoice_def items_def add_debt_def
      fadd_def round_binary64_numeral)

lemma find_invoice_F:
  "find_invoice db_F 1 = Some (owed_by_2 1 d01)" "find_invoice db_F 2 = Some (owed_by_2 2 d02)"
  "find_invoice db_F 3 = Some (owed_by_2 3 d03)"
  by (simp_all add: find_invoice_def db_F_def owed_by_2_def)

lemma owed_by_2_fields:
  "user_sums (owed_by_2 i x) = [(''2'', x)]" "creator_id (owed_by_2 i x) = 1"
  "items (owed_by_2 i x) = [(StrKey ''2'', x)]"
  by (simp_all add: owed_by_2_def items_def)

lemma collect_F_123:
  "collect_debts db_F [1, 2, 3] [] = [(StrKey ''2'', [(IntKey 1, d06_next)])]"
  by (simp add: find_invoice_F owed_by_2_fields add_debt_def
      fadd_d01 fadd_d01_d02 fadd_d03_next_d03)

lemma collect_F_321:
  "collect_debts db_F [3, 2, 1] [] = [(StrKey ''2'', [(IntKey 1, d06)])]"
  by (simp add: find_invoice_F owed_by_2_fields add_debt_def
      fadd_d03 fadd_d03_d02 fadd_d05_d01)

lemma find_invoice_T:
  "find_invoice db_T 1 = Some (owed_by_2 1 30)" "find_invoice db_T 2 = Some (owed_by_2 2 12)"
  "find_invoice db_T 3 = Some (owed_by_2 3 7)"
  by (simp_all add: find_invoice_def db_T_def owed_by_2_def)

section \<open>Netting\<close>



lemma net_creditors_step:
  "net_creditors D d (c # cs) S =
     net_creditors D d cs
       (if d \<noteq> c \<and> 0 < net_of D d c then set_entry S d c (net_of D d c) else S)"
  by (simp add: net_of_def Let_def)



lemma update_no_empty:
  "v \<noteq> [] \<Longrightarrow> [] \<notin> snd ` set al \<Longrightarrow> [] \<notin> snd ` set (AList.update k v al)"
  by (induction al) auto

lemma set_entry_no_empty:
  "[] \<notin> snd ` set S \<Longrightarrow> [] \<notin> snd ` set (set_entry S d c v)"
  unfolding set_entry_def by (rule update_no_empty) simp_all

lemma net_creditors_no_empty:
  "[] \<notin> snd ` set S \<Longrightarrow> [] \<notin> snd ` set (net_creditors D d cs S)"
proof (induction cs arbitrary: S)
  case Nil
  then show ?case by simp
next
  case (Cons c cs)
  have "[] \<notin> snd ` set (if d \<noteq> c \<and> 0 < net_of D d c then set_entry S d c (net_of D d c) else S)"
    using Cons.prems by (simp add: set_entry_no_empty)
  then show ?case
    unfolding net_creditors_step by (rule Cons.IH)
qed

lemma net_debtors_no_empty:
  "[] \<notin> snd ` set S \<Longrightarrow> [] \<notin> snd ` set (net_debtors D ds ks S)"
  by (induction ds arbitrary: S) (simp_all add: net_creditors_no_empty)

lemma simplify_eq: "simplify D ks = net_debtors D ks ks []"
proof -
  have "[] \<notin> snd ` set (net_debtors D ks ks [])"
    by (rule net_debtors_no_empty) simp
  then have "\<forall>p \<in> set (net_debtors D ks ks []). (case p of (d, cs) \<Rightarrow> cs \<noteq> [])"
    by force
  then show ?thesis
    unfolding simplify_def by (simp add: filter_id_conv)
qed





lemma items_no_int_key: "IntKey a \<notin> fst ` set (items invoice)"
  by (auto simp: items_def)

lemma add_debt_keys: "fst ` set (add_debt D u c x) = insert u (fst ` set D)"
  by (simp add: add_debt_def Let_def dom_update)

lemma add_user_sums_keys:
  "fst ` set (add_user_sums cid its D) \<subseteq> fst ` set its \<union> fst ` set D"
proof (induction its arbitrary: D)
  case Nil
  show ?case by simp
next
  case (Cons p its)
  obtain u x where p: "p = (u, x)" by (cases p)
  show ?case
    using Cons.IH [of "if u \<noteq> cid then add_debt D u cid x else D"]
    by (auto simp: p add_debt_keys split: if_splits)
qed

lemma collect_debts_no_int_key:
  "IntKey a \<notin> fst ` set D \<Longrightarrow> IntKey a \<notin> fst ` set (collect_debts st ids D)"
proof (induction ids arbitrary: D)
  case Nil
  then show ?case by simp
next
  case (Cons i ids)
  show ?case
  proof (cases "find_invoice st i")
    case None
    then show ?thesis using Cons.IH [OF Cons.prems] by simp
  next
    case (Some invoice)
    have "IntKey a \<notin> fst ` set (add_user_sums (IntKey (creator_id invoice)) (items invoice) D)"
      using add_user_sums_keys [of "IntKey (creator_id invoice)" "items invoice" D]
        items_no_int_key [of a invoice] Cons.prems by blast
    then show ?thesis
      using Some Cons.IH [OF Cons.prems] Cons.IH by simp
  qed
qed

lemma gross_debts_get_int: "debts_get (gross_debts st room) (IntKey a) b = 0"
proof -
  have "IntKey a \<notin> fst ` set (gross_debts st room)"
    unfolding gross_debts_def by (rule collect_debts_no_int_key) simp
  then have "map_of (gross_debts st room) (IntKey a) = None"
    by (simp add: map_of_eq_None_iff)
  then show ?thesis by (simp add: debts_get_def)
qed

lemma net_of_gross_debts: "net_of (gross_debts st room) a b = 0"
  by (simp add: net_of_def gross_debts_get_int fsub_self)

lemma net_debtors_zero:
  assumes "\<And>a b. net_of D a b = 0"
  shows "net_debtors D ds ks S = S"
proof -
  have inner: "net_creditors D d cs S' = S'" for d cs S'
    by (induction cs arbitrary: S') (simp_all add: net_creditors_step assms del: net_creditors.simps(2))
  show ?thesis
    by (induction ds arbitrary: S) (simp_all add: inner)
qed

lemma balances_empty:
  assumes "find_room st rid = Some room"
  shows "get_balances_in_room st rid = Inr []"
  using assms
  by (simp add: get_balances_in_room_def simplify_eq net_debtors_zero net_of_gross_debts)



text \<open>
  Claim C2. For the room with participants 1, 2, 3, invoice I1 (creator 1, contributions
  2: 30 and 3: 20) and invoice I2 (creator 2, contribution 1: 10), the claim expects the
  gross debts \<open>debts[2][1] = 30\<close>, \<open>debts[3][1] = 20\<close>, \<open>debts[1][2] = 10\<close> and the
  ledger \<open>{2: {1: 20}, 3: {1: 20}}\<close>. On the stored invoices the aggregation files the
  three amounts under the string keys "2", "3" and "1"; the lookups under the integer ids of
  the participants find nothing, and get\_balances\_in\_room returns the empty ledger.
\<close>

theorem balances_example:
  "gross_debts db_R room_R =
     [(StrKey ''2'', [(IntKey 1, 30)]), (StrKey ''3'', [(IntKey 1, 20)]),
      (StrKey ''1'', [(IntKey 2, 10)])] \<and>
   debts_get (gross_debts db_R room_R) (IntKey 2) (IntKey 1) = 0 \<and>
   debts_get (gross_debts db_R room_R) (IntKey 3) (IntKey 1) = 0 \<and>
   debts_get (gross_debts db_R room_R) (IntKey 1) (IntKey 2) = 0 \<and>
   get_balances_in_room db_R 1 = Inr []"
proof -
  have room: "find_room db_R 1 = Some room_R"
    by (simp add: find_room_def db_R_def room_R_def)
  have "get_balances_in_room db_R 1 = Inr []"
    using room by (rule balances_empty)
  then show ?thesis
    by (simp add: gross_R debts_get_def)
qed

section \<open>Aggregation and the order of the invoices\<close>

lemma accumulate_Nil: "accumulate e [] = e"
  by (simp add: accumulate_def)

lemma accumulate_Cons:
  "accumulate e (x # xs) = accumulate (Some (fadd (case e of None \<Rightarrow> 0 | Some y \<Rightarrow> y) x)) xs"
  by (simp add: accumulate_def)

lemma accumulate_append: "accumulate e (xs @ ys) = accumulate (accumulate e xs) ys"
  by (induction xs arbitrary: e) (simp_all add: accumulate_Nil accumulate_Cons)

lemma accumulate_None: "accumulate None xs = (if xs = [] then None else Some (fsum xs))"
  by (simp add: accumulate_def fsum_def)

lemma debts_entry_add_debt:
  "debts_entry (add_debt D u c x) a b =
     (if a = u \<and> b = c then Some (fadd (case debts_entry D u c of None \<Rightarrow> 0 | Some y \<Rightarrow> y) x)
      else debts_entry D a b)"
  by (auto simp: debts_entry_def add_debt_def Let_def update_conv' split: option.splits)

lemma debts_entry_add_user_sums:
  "debts_entry (add_user_sums cid its D) a b =
     accumulate (debts_entry D a b)
       (map snd (filter (\<lambda>(k, amount). k = a \<and> cid = b \<and> k \<noteq> b) its))"
proof (induction its arbitrary: D)
  case Nil
  show ?case by (simp add: accumulate_Nil)
next
  case (Cons p its)
  obtain u x where p: "p = (u, x)" by (cases p)
  show ?case
    by (auto simp: p Cons.IH debts_entry_add_debt accumulate_Cons)
qed

lemma debts_entry_collect_debts:
  "debts_entry (collect_debts st ids D) a b =
     accumulate (debts_entry D a b) (contributions st a b ids)"
proof (induction ids arbitrary: D)
  case Nil
  show ?case by (simp add: accumulate_Nil)
next
  case (Cons i ids)
  show ?case
  proof (cases "find_invoice st i")
    case None
    then show ?thesis by (simp add: Cons.IH)
  next
    case (Some invoice)
    show ?thesis
    proof (cases "user_sums invoice = []")
      case True
      then have "contributions_of a b invoice = []"
        by (simp add: contributions_of_def items_def)
      with Some True show ?thesis by (simp add: Cons.IH)
    next
      case False
      with Some show ?thesis
        by (simp add: Cons.IH debts_entry_add_user_sums accumulate_append contributions_of_def)
    qed
  qed
qed

lemma mset_contributions:
  "mset (contributions st a b ids) =
     (\<Sum>i \<in># mset ids. case find_invoice st i of
        None \<Rightarrow> {#} | Some invoice \<Rightarrow> mset (contributions_of a b invoice))"
  by (induction ids) (simp_all split: option.splits)

lemma contributions_permuted:
  "mset ids = mset ids' \<Longrightarrow> mset (contributions st a b ids) = mset (contributions st a b ids')"
  by (simp add: mset_contributions)

lemma add_debt_no_empty:
  "[] \<notin> snd ` set D \<Longrightarrow> [] \<notin> snd ` set (add_debt D u c x)"
  unfolding add_debt_def Let_def by (rule update_no_empty) simp_all

lemma add_user_sums_no_empty:
  "[] \<notin> snd ` set D \<Longrightarrow> [] \<notin> snd ` set (add_user_sums cid its D)"
proof (induction its arbitrary: D)
  case Nil
  then show ?case by simp
next
  case (Cons p its)
  obtain u x where p: "p = (u, x)" by (cases p)
  have "[] \<notin> snd ` set (if u \<noteq> cid then add_debt D u cid x else D)"
    using Cons.prems by (simp add: add_debt_no_empty)
  then have "[] \<notin> snd ` set (add_user_sums cid its (if u \<noteq> cid then add_debt D u cid x else D))"
    by (rule Cons.IH)
  then show ?case by (simp add: p)
qed

lemma collect_debts_no_empty:
  "[] \<notin> snd ` set D \<Longrightarrow> [] \<notin> snd ` set (collect_debts st ids D)"
proof (induction ids arbitrary: D)
  case Nil
  then show ?case by simp
next
  case (Cons i ids)
  show ?case
  proof (cases "find_invoice st i")
    case None
    then show ?thesis using Cons.IH [OF Cons.prems] by simp
  next
    case (Some invoice)
    have "[] \<notin> snd ` set (add_user_sums (IntKey (creator_id invoice)) (items invoice) D)"
      using Cons.prems by (rule add_user_sums_no_empty)
    then have "[] \<notin> snd ` set (collect_debts st ids
        (add_user_sums (IntKey (creator_id invoice)) (items invoice) D))"
      by (rule Cons.IH)
    then show ?thesis
      using Some Cons.IH [OF Cons.prems] by simp
  qed
qed

lemma outer_key_iff:
  assumes "[] \<notin> snd ` set D"
  shows "map_of D a = None \<longleftrightarrow> (\<forall>b. debts_entry D a b = None)"
proof (cases "map_of D a")
  case None
  then show ?thesis by (simp add: debts_entry_def)
next
  case (Some m)
  then have "(a, m) \<in> set D" by (rule map_of_SomeD)
  then have "m \<noteq> []" using assms by force
  then obtain b v ms where "m = (b, v) # ms" by (cases m) auto
  then have "debts_entry D a b = Some v" using Some by (simp add: debts_entry_def)
  then show ?thesis using Some by auto
qed

lemma foldl_fadd_exact:
  assumes "acc \<in> \<int>" and "\<forall>x \<in> set xs. x \<in> \<int>" and "\<bar>acc\<bar> + (\<Sum>x\<leftarrow>xs. \<bar>x\<bar>) < 2 ^ 53"
  shows "foldl fadd acc xs = acc + sum_list xs"
  using assms
proof (induction xs arbitrary: acc)
  case Nil
  show ?case by simp
next
  case (Cons x xs)
  have x: "x \<in> \<int>" using Cons.prems(2) by simp
  have nonneg: "0 \<le> (\<Sum>x\<leftarrow>xs. \<bar>x\<bar>)" by (rule sum_list_nonneg) auto
  obtain n where n: "acc + x = of_int n"
    using Cons.prems(1) x by (metis Ints_add Ints_cases)
  have "\<bar>acc + x\<bar> < 2 ^ 53" using Cons.prems(3) nonneg by simp
  then have "\<bar>real_of_int n\<bar> < 2 ^ 53" by (simp add: n)
  then have "\<bar>n\<bar> < 2 ^ 53" by (simp flip: of_int_abs add: of_int_less_numeral_power_cancel_iff)
  then have step: "fadd acc x = acc + x"
    by (simp add: fadd_def n round_binary64_of_int)
  have "foldl fadd (acc + x) xs = (acc + x) + sum_list xs"
  proof (rule Cons.IH)
    show "acc + x \<in> \<int>" using Cons.prems(1) x by simp
    show "\<forall>x \<in> set xs. x \<in> \<int>" using Cons.prems(2) by simp
    show "\<bar>acc + x\<bar> + (\<Sum>x\<leftarrow>xs. \<bar>x\<bar>) < 2 ^ 53" using Cons.prems(3) by simp
  qed
  then show ?case by (simp add: step)
qed

lemma fsum_exact:
  assumes "\<forall>x \<in> set xs. x \<in> \<int>" and "(\<Sum>x\<leftarrow>xs. \<bar>x\<bar>) < 2 ^ 53"
  shows "fsum xs = sum_list xs"
proof -
  have "foldl fadd 0 xs = 0 + sum_list xs"
  proof (rule foldl_fadd_exact)
    show "(0::real) \<in> \<int>" by simp
    show "\<forall>x \<in> set xs. x \<in> \<int>" by (rule assms(1))
    show "\<bar>0::real\<bar> + (\<Sum>x\<leftarrow>xs. \<bar>x\<bar>) < 2 ^ 53" using assms(2) by simp
  qed
  then show ?thesis by (simp add: fsum_def)
qed

lemma sum_list_permuted:
  fixes xs ys :: "real list"
  assumes "mset xs = mset ys"
  shows "sum_list xs = sum_list ys"
proof -
  have "sum_list xs = sum_mset (mset xs)" by (simp add: sum_mset_sum_list)
  also have "\<dots> = sum_mset (mset ys)" by (simp only: assms)
  also have "\<dots> = sum_list ys" by (simp add: sum_mset_sum_list)
  finally show ?thesis .
qed

lemma fsum_permuted:
  assumes "mset xs = mset ys" and "\<forall>x \<in> set xs. x \<in> \<int>" and "(\<Sum>x\<leftarrow>xs. \<bar>x\<bar>) < 2 ^ 53"
  shows "fsum xs = fsum ys"
proof -
  have set: "set xs = set ys" using assms(1) by (rule mset_eq_setD)
  have "mset (map abs xs) = mset (map abs ys)" by (simp only: mset_map assms(1))
  then have abs: "(\<Sum>x\<leftarrow>xs. \<bar>x\<bar>) = (\<Sum>x\<leftarrow>ys. \<bar>x\<bar>)" by (rule sum_list_permuted)
  have sum: "sum_list xs = sum_list ys" using assms(1) by (rule sum_list_permuted)
  have ys_int: "\<forall>x \<in> set ys. x \<in> \<int>" using assms(2) by (simp only: set)
  have ys_small: "(\<Sum>x\<leftarrow>ys. \<bar>x\<bar>) < 2 ^ 53" using assms(3) by (simp only: abs)
  have "fsum ys = sum_list ys" using ys_int ys_small by (rule fsum_exact)
  moreover have "fsum xs = sum_list xs" using assms(2,3) by (rule fsum_exact)
  ultimately show ?thesis by (simp only: sum)
qed

text \<open>
  Claim C3, as stated: the aggregation gives an identical result on every permutation of
  the list of invoices. It does not: with the amounts 0.1, 0.2 and 0.3 owed by user 2 to
  user 1 in three invoices, the order 1, 2, 3 gives 0.6000000000000001 and the order
  3, 2, 1 gives 0.6.
\<close>

theorem aggregation_order_counterexample:
  "mset [1, 2, 3] = mset [3, 2, 1 :: int] \<and>
   collect_debts db_F [1, 2, 3] [] = [(StrKey ''2'', [(IntKey 1, d06_next)])] \<and>
   collect_debts db_F [3, 2, 1] [] = [(StrKey ''2'', [(IntKey 1, d06)])] \<and>
   debts_entry (collect_debts db_F [1, 2, 3] []) (StrKey ''2'') (IntKey 1) \<noteq>
     debts_entry (collect_debts db_F [3, 2, 1] []) (StrKey ''2'') (IntKey 1)"
  unfolding collect_F_123 collect_F_321
  by (simp add: debts_entry_def d06_next_neq add_mset_commute)

text \<open>
  Claim C3, amended. For every store, every list of invoice ids and every permutation of
  it, the aggregation over the permuted list has the same debtor keys and the same creditor
  keys under each debtor as over the original list, and each amount \<open>debts[a][b]\<close> is the
  binary64 sum, added from 0.0 in the order of the list, of the same multiset of
  contributions. The amounts are identical when the contributions to \<open>debts[a][b]\<close> are
  integers whose absolute values sum to less than \<open>2 ^ 53\<close>.
\<close>

theorem aggregation_permutation:
  assumes perm: "mset ids = mset ids'"
  shows "mset (contributions st a b ids') = mset (contributions st a b ids) \<and>
    debts_entry (collect_debts st ids []) a b =
      (if contributions st a b ids = [] then None else Some (fsum (contributions st a b ids))) \<and>
    debts_entry (collect_debts st ids' []) a b =
      (if contributions st a b ids' = [] then None else Some (fsum (contributions st a b ids'))) \<and>
    (debts_entry (collect_debts st ids []) a b = None \<longleftrightarrow>
       debts_entry (collect_debts st ids' []) a b = None) \<and>
    (map_of (collect_debts st ids []) a = None \<longleftrightarrow> map_of (collect_debts st ids' []) a = None) \<and>
    ((\<forall>x \<in> set (contributions st a b ids). x \<in> \<int>) \<and>
       (\<Sum>x\<leftarrow>contributions st a b ids. \<bar>x\<bar>) < 2 ^ 53 \<longrightarrow>
     debts_entry (collect_debts st ids []) a b = debts_entry (collect_debts st ids' []) a b)"
proof -
  have empty: "debts_entry [] x y = None" for x y
    by (simp add: debts_entry_def)
  have m: "mset (contributions st a b ids') = mset (contributions st a b ids)"
    using perm by (simp only: contributions_permuted [of ids ids'])
  have "length (contributions st a b ids') = length (contributions st a b ids)"
    using m by (rule mset_eq_length)
  then have nil: "contributions st a b ids' = [] \<longleftrightarrow> contributions st a b ids = []"
    by (simp only: flip: length_0_conv)
  have e: "debts_entry (collect_debts st ids []) x y =
      (if contributions st x y ids = [] then None else Some (fsum (contributions st x y ids)))"
    for x y
    by (simp only: debts_entry_collect_debts empty accumulate_None)
  have e': "debts_entry (collect_debts st ids' []) x y =
      (if contributions st x y ids' = [] then None else Some (fsum (contributions st x y ids')))"
    for x y
    by (simp only: debts_entry_collect_debts empty accumulate_None)
  have none_iff: "debts_entry (collect_debts st ids []) x y = None \<longleftrightarrow>
       debts_entry (collect_debts st ids' []) x y = None" for x y
  proof -
    have "mset (contributions st x y ids') = mset (contributions st x y ids)"
      using perm by (simp only: contributions_permuted [of ids ids'])
    then have "length (contributions st x y ids') = length (contributions st x y ids)"
      by (rule mset_eq_length)
    then have "contributions st x y ids' = [] \<longleftrightarrow> contributions st x y ids = []"
      by (simp only: flip: length_0_conv)
    then show ?thesis
      unfolding e e' by simp
  qed
  have outer: "map_of (collect_debts st ids []) a = None \<longleftrightarrow>
      map_of (collect_debts st ids' []) a = None"
  proof -
    have 1: "map_of (collect_debts st ids []) a = None \<longleftrightarrow>
        (\<forall>y. debts_entry (collect_debts st ids []) a y = None)"
      by (rule outer_key_iff, rule collect_debts_no_empty) simp
    have 2: "map_of (collect_debts st ids' []) a = None \<longleftrightarrow>
        (\<forall>y. debts_entry (collect_debts st ids' []) a y = None)"
      by (rule outer_key_iff, rule collect_debts_no_empty) simp
    show ?thesis
      unfolding 1 2 by (simp only: none_iff)
  qed
  have exact: "(\<forall>x \<in> set (contributions st a b ids). x \<in> \<int>) \<and>
       (\<Sum>x\<leftarrow>contributions st a b ids. \<bar>x\<bar>) < 2 ^ 53 \<longrightarrow>
     debts_entry (collect_debts st ids []) a b = debts_entry (collect_debts st ids' []) a b"
  proof
    assume h: "(\<forall>x \<in> set (contributions st a b ids). x \<in> \<int>) \<and>
       (\<Sum>x\<leftarrow>contributions st a b ids. \<bar>x\<bar>) < 2 ^ 53"
    have "fsum (contributions st a b ids) = fsum (contributions st a b ids')"
    proof (rule fsum_permuted)
      show "mset (contributions st a b ids) = mset (contributions st a b ids')"
        by (rule m [symmetric])
      show "\<forall>x \<in> set (contributions st a b ids). x \<in> \<int>" using h by (rule conjunct1)
      show "(\<Sum>x\<leftarrow>contributions st a b ids. \<bar>x\<bar>) < 2 ^ 53" using h by (rule conjunct2)
    qed
    then show "debts_entry (collect_debts st ids []) a b = debts_entry (collect_debts st ids' []) a b"
      unfolding e e' nil by simp
  qed
  show ?thesis
    using m e [of a b] e' [of a b] none_iff [of a b] outer exact by (intro conjI)
qed

theorem aggregation_permutation_witness:
  "mset [1, 2, 3] = mset [3, 1, 2 :: int] \<and>
   contributions db_T (StrKey ''2'') (IntKey 1) [1, 2, 3] = [30, 12, 7] \<and>
   contributions db_T (StrKey ''2'') (IntKey 1) [3, 1, 2] = [7, 30, 12] \<and>
   debts_entry (collect_debts db_T [1, 2, 3] []) (StrKey ''2'') (IntKey 1) = Some 49 \<and>
   debts_entry (collect_debts db_T [3, 1, 2] []) (StrKey ''2'') (IntKey 1) = Some 49 \<and>
   map_of (collect_debts db_T [3, 1, 2] []) (StrKey ''2'') \<noteq> None"
proof -
  have perm: "mset [1, 2, 3] = mset [3, 1, 2 :: int]"
    by (simp add: add_mset_commute)
  have c: "contributions db_T (StrKey ''2'') (IntKey 1) [1, 2, 3] = [30, 12, 7]"
    by (simp add: find_invoice_T contributions_of_def owed_by_2_fields)
  have c': "contributions db_T (StrKey ''2'') (IntKey 1) [3, 1, 2] = [7, 30, 12]"
    by (simp add: find_invoice_T contributions_of_def owed_by_2_fields)
  have sum: "fsum [30, 12, 7] = 49"
    by (simp add: fsum_def fadd_def round_binary64_numeral)
  note agg = aggregation_permutation [OF perm, of db_T "StrKey ''2''" "IntKey 1", unfolded c c']
  from agg have e: "debts_entry (collect_debts db_T [1, 2, 3] []) (StrKey ''2'') (IntKey 1) =
      (if [30, 12, 7 :: real] = [] then None else Some (fsum [30, 12, 7]))"
    by blast
  then have e49: "debts_entry (collect_debts db_T [1, 2, 3] []) (StrKey ''2'') (IntKey 1) = Some 49"
    by (simp add: sum)
  have ints: "\<forall>x \<in> set [30, 12, 7 :: real]. x \<in> \<int>" by simp
  have small: "(\<Sum>x\<leftarrow>[30, 12, 7 :: real]. \<bar>x\<bar>) < 2 ^ 53" by simp
  from agg ints small have same:
    "debts_entry (collect_debts db_T [1, 2, 3] []) (StrKey ''2'') (IntKey 1) =
     debts_entry (collect_debts db_T [3, 1, 2] []) (StrKey ''2'') (IntKey 1)"
    by blast
  have e49': "debts_entry (collect_debts db_T [3, 1, 2] []) (StrKey ''2'') (IntKey 1) = Some 49"
    using same e49 by simp
  have outer: "map_of (collect_debts db_T [3, 1, 2] []) (StrKey ''2'') \<noteq> None"
  proof
    assume "map_of (collect_debts db_T [3, 1, 2] []) (StrKey ''2'') = None"
    then have "debts_entry (collect_debts db_T [3, 1, 2] []) (StrKey ''2'') (IntKey 1) = None"
      by (simp only: debts_entry_def option.case)
    with e49' show False by (simp only: option.distinct)
  qed
  from perm c c' e49 e49' outer show ?thesis by (intro conjI)
qed

section \<open>Totals and pairwise balance\<close>





lemma sum_balances_unchanged:
  "sum_balances st u1 u2 ids (b1, b2) = (b1, b2)"
proof (induction ids)
  case Nil
  show ?case by simp
next
  case (Cons i ids)
  have "map_of (items invoice) (IntKey u) = None" for invoice u
    using items_no_int_key [of u invoice] by (simp add: map_of_eq_None_iff)
  then show ?case
    using Cons.IH by (simp split: option.splits)
qed

lemma balance_zero:
  assumes "find_room st rid = Some room"
  shows "get_balance_between_users_in_room st rid u1 u2 = Inr 0"
  using assms
  by (simp add: get_balance_between_users_in_room_def sum_balances_unchanged fsub_self)

text \<open>
  Claim C7. For a room that resolves, the claim expects the sum of the shares of user1 over
  the room's resolvable invoices minus the same sum for user2: in the store \<open>db_S\<close> user 1
  has the share 30 and user 2 the shares 10 and 5, a balance of 15. The shares are filed
  under the string keys "1" and "2"; the test \<^verbatim>\<open>user1_id in user_sums\<close> looks for the
  integers 1 and 2, finds nothing, and get\_balance\_between\_users\_in\_room returns 0.0.
\<close>

theorem balance_between_example:
  "find_room db_S 1 = Some room_S \<and>
   resolved db_S (invoices room_S) = [invoice_1, invoice_2] \<and>
   map_of (items invoice_1) (StrKey ''1'') = Some 30 \<and>
   map_of (items invoice_1) (StrKey ''2'') = Some 10 \<and>
   map_of (items invoice_2) (StrKey ''2'') = Some 5 \<and>
   map_of (items invoice_1) (IntKey 1) = None \<and>
   map_of (items invoice_1) (IntKey 2) = None \<and>
   map_of (items invoice_2) (IntKey 2) = None \<and>
   get_balance_between_users_in_room db_S 1 1 2 = Inr 0"
proof -
  have "get_balance_between_users_in_room db_S 1 1 2 = Inr 0"
    using find_room_S by (rule balance_zero)
  then show ?thesis
    by (simp add: find_room_S invoices_S find_invoice_S items_def invoice_1_def invoice_2_def)
qed

section \<open>Failing lookups\<close>

lemma get_invoice_missing:
  "find_invoice st i = None \<Longrightarrow>
     get_invoice st i = Inl (HTTPException 400 (Str (HTTPException 404 (Text ''Invoice not found''))))"
  by (simp add: get_invoice_def except_Exception_def)

lemma get_room_missing:
  "find_room st i = None \<Longrightarrow> get_room st i = Inl (HTTPException 404 (Text ''Room not found''))"
  by (simp add: get_room_def)

text \<open>
  Claim C8. A direct lookup of an id that does not resolve fails with a not-found error.
  get\_room does: status 404. get\_invoice does not: the 404 that its body raises is caught
  by the handler's own \<^verbatim>\<open>except Exception\<close> and leaves as status 400. In the store
  \<open>db_S\<close> neither a room nor an invoice has the id 99.
\<close>

theorem lookup_missing:
  "find_room db_S 99 = None \<and> find_invoice db_S 99 = None \<and>
   get_room db_S 99 = Inl (HTTPException 404 (Text ''Room not found'')) \<and>
   get_invoice db_S 99 =
     Inl (HTTPException 400 (Str (HTTPException 404 (Text ''Invoice not found'')))) \<and>
   status_code (HTTPException 400 (Str (HTTPException 404 (Text ''Invoice not found'')))) \<noteq> 404"
proof -
  have room: "find_room db_S 99 = None"
    by (simp add: find_room_def db_S_def room_S_def)
  show ?thesis
    by (simp add: room find_invoice_S get_room_missing get_invoice_missing)
qed

section \<open>The closing transition\<close>

lemma find_close_row:
  "find (\<lambda>d. data_id d = j) (close_row i rows) =
     (if j = i then map_option (\<lambda>d. d\<lparr>status := True\<rparr>) (find (\<lambda>d. data_id d = i) rows)
      else find (\<lambda>d. data_id d = j) rows)"
  by (induction rows) (auto simp: close_row_def)

lemma find_invoice_close_row:
  "find_invoice (st\<lparr>data := close_row i (data st)\<rparr>) j =
     (if j = i then map_option (\<lambda>d. d\<lparr>status := True\<rparr>) (find_invoice st i)
      else find_invoice st j)"
  by (simp add: find_invoice_def find_close_row)

text \<open>
  Claim C5. confirm\_close\_invoice on an invoice that is already closed fails with the
  error of status 400 that carries "Invoice is already closed" and leaves the store as it
  was; and whatever id confirm\_close\_invoice is called with, a closed invoice is closed
  afterwards.
\<close>

theorem confirm_close_closed:
  assumes "find_invoice st i = Some invoice" and "status invoice"
  shows "confirm_close_invoice st i =
      (st, Inl (HTTPException 400 (Str (HTTPException 400 (Text ''Invoice is already closed''))))) \<and>
    (\<forall>k. \<exists>invoice'. find_invoice (fst (confirm_close_invoice st k)) i = Some invoice' \<and>
        status invoice')"
proof
  show "confirm_close_invoice st i =
      (st, Inl (HTTPException 400 (Str (HTTPException 400 (Text ''Invoice is already closed'')))))"
    using assms by (simp add: confirm_close_invoice_def except_Exception_def)
next
  show "\<forall>k. \<exists>invoice'. find_invoice (fst (confirm_close_invoice st k)) i = Some invoice' \<and>
        status invoice'"
  proof
    fix k
    show "\<exists>invoice'. find_invoice (fst (confirm_close_invoice st k)) i = Some invoice' \<and>
        status invoice'"
      using assms
      by (auto simp: confirm_close_invoice_def find_invoice_close_row split: option.splits)
  qed
qed

theorem confirm_close_closed_witness:
  "find_invoice db_S 2 = Some invoice_2 \<and> status invoice_2 \<and>
   confirm_close_invoice db_S 2 =
     (db_S, Inl (HTTPException 400 (Str (HTTPException 400 (Text ''Invoice is already closed''))))) \<and>
   (\<exists>invoice'. find_invoice (fst (confirm_close_invoice db_S 1)) 2 = Some invoice' \<and>
      status invoice')"
proof -
  have closed: "status invoice_2" by (simp add: invoice_2_def)
  from confirm_close_closed [OF find_invoice_S(2) closed] find_invoice_S(2) closed
  show ?thesis by blast
qed

text \<open>
  Claim C9. request\_close\_invoice leaves the store as it was, whether the invoice is open,
  closed or absent. It fails when the invoice is absent and when it is closed, and
  otherwise returns the invoice as stored.
\<close>

theorem request_close_no_effect:
  "fst (request_close_invoice st i) = st \<and>
   snd (request_close_invoice st i) =
     (case find_invoice st i of
        None \<Rightarrow> Inl (HTTPException 400 (Str (HTTPException 404 (Text ''Invoice not found''))))
      | Some invoice \<Rightarrow>
          if status invoice
          then Inl (HTTPException 400 (Str (HTTPException 400 (Text ''Invoice is already closed''))))
          else Inr invoice)"
  by (simp add: request_close_invoice_def except_Exception_def split: option.splits)

text \<open>
  Claim C10. confirm\_close\_invoice on an existing open invoice succeeds, stores and returns
  the invoice with its status set and every other field (name, description, date, total,
  user\_sums, creator\_id, id) as before, and changes no other invoice, no user and no room.
\<close>

theorem confirm_close_open:
  assumes "find_invoice st i = Some invoice" and "\<not> status invoice"
  shows "\<exists>st' invoice'. confirm_close_invoice st i = (st', Inr invoice') \<and>
     find_invoice st' i = Some invoice' \<and> status invoice' \<and>
     name invoice' = name invoice \<and> description invoice' = description invoice \<and>
     date invoice' = date invoice \<and> total invoice' = total invoice \<and>
     user_sums invoice' = user_sums invoice \<and> creator_id invoice' = creator_id invoice \<and>
     data_id invoice' = data_id invoice \<and>
     (\<forall>j. j \<noteq> i \<longrightarrow> find_invoice st' j = find_invoice st j) \<and>
     length (data st') = length (data st) \<and>
     users st' = users st \<and> rooms st' = rooms st"
proof -
  let ?st' = "st\<lparr>data := close_row i (data st)\<rparr>"
  let ?inv' = "invoice\<lparr>status := True\<rparr>"
  have run: "confirm_close_invoice st i = (?st', Inr ?inv')"
    using assms by (simp add: confirm_close_invoice_def except_Exception_def)
  have found: "find_invoice ?st' i = Some ?inv'"
    using assms by (simp add: find_invoice_close_row)
  have others: "\<forall>j. j \<noteq> i \<longrightarrow> find_invoice ?st' j = find_invoice st j"
    by (simp add: find_invoice_close_row)
  have len: "length (data ?st') = length (data st)"
    by (simp add: close_row_def)
  from run found others len show ?thesis by simp
qed

theorem confirm_close_open_witness:
  "find_invoice db_S 1 = Some invoice_1 \<and> \<not> status invoice_1 \<and>
   (\<exists>st' invoice'. confirm_close_invoice db_S 1 = (st', Inr invoice') \<and>
      find_invoice st' 1 = Some invoice' \<and> status invoice' \<and>
      user_sums invoice' = [(''1'', 30), (''2'', 10)] \<and> total invoice' = 40 \<and>
      find_invoice st' 2 = Some invoice_2)"
proof -
  have opened: "\<not> status invoice_1" by (simp add: invoice_1_def)
  from confirm_close_open [OF find_invoice_S(1) opened] obtain st' invoice' where
    run: "confirm_close_invoice db_S 1 = (st', Inr invoice')"
    and found: "find_invoice st' 1 = Some invoice'" "status invoice'"
    and fields: "user_sums invoice' = user_sums invoice_1" "total invoice' = total invoice_1"
    and others: "\<forall>j. j \<noteq> 1 \<longrightarrow> find_invoice st' j = find_invoice db_S j"
    by blast
  from others have "find_invoice st' 2 = Some invoice_2"
    by (simp add: find_invoice_S)
  with run found fields find_invoice_S(1) opened show ?thesis
    by (simp add: invoice_1_def)
qed

section \<open>The failure of create\_invoice\<close>

lemma create_invoice_raises: "\<exists>e. snd (create_invoice st invoice) = Inl e"
proof (cases "find_user st (creator_id invoice)")
  case None
  then show ?thesis by (simp add: create_invoice_def)
next
  case (Some creator)
  obtain st1 r where r: "ensure_users st (map fst (user_sums invoice)) [] = (st1, r)"
    by (cases "ensure_users st (map fst (user_sums invoice)) []") blast
  show ?thesis
    by (cases r) (simp_all add: create_invoice_def Some r room_id_of_def)
qed

text \<open>
  Claim C4. After create\_invoice succeeds, every user id of the invoice's contribution map
  is a participant of the room. The code does not get that far: for the request
  \<open>request_4\<close> on the store \<open>db_S\<close> it commits the new user 4 and then raises
  AttributeError on \<^verbatim>\<open>invoice.room_id\<close>; no invoice is stored and user 4 is a
  participant of no room.
\<close>

theorem create_invoice_example:
  "create_invoice db_S request_4 =
     (db_S\<lparr>users := [user_1, user_2, user_3, \<lparr>user_id = 4, user_name = ''User 4''\<rparr>]\<rparr>,
      Inl (AttributeError ''room_id'')) \<and>
   find_room (fst (create_invoice db_S request_4)) 1 = Some room_S \<and>
   4 \<notin> user_id ` set (participants room_S) \<and>
   data (fst (create_invoice db_S request_4)) = data db_S"
proof -
  have run: "create_invoice db_S request_4 =
     (db_S\<lparr>users := [user_1, user_2, user_3, \<lparr>user_id = 4, user_name = ''User 4''\<rparr>]\<rparr>,
      Inl (AttributeError ''room_id''))"
    by (simp add: create_invoice_def request_4_def find_user_def db_S_def user_1_def
        user_2_def user_3_def str_int_def digits.simps room_id_of_def Let_def)
  have room: "find_room (db_S\<lparr>users := [user_1, user_2, user_3,
      \<lparr>user_id = 4, user_name = ''User 4''\<rparr>]\<rparr>) 1 = Some room_S"
    by (simp add: find_room_def db_S_def room_S_def)
  show ?thesis
    by (simp add: run room participants_S)
qed

end
